theory Spec2Isabelle
  imports Complex_Main "HOL-Library.Sublist" "HOL-Library.Multiset"
begin

section \<open>Python values used by the bill-extraction core\<close>

text \<open>
  The core of the repository is three Python classes: \<open>OCRExtractor.group_by_row\<close>
  (src/services/ocr\_extractor.py), \<open>TableParser\<close> (src/services/table\_parser.py) and
  \<open>BillValidator\<close> (src/services/services\_validator.py). This section models the Python
  values and built-ins they use.

  Numbers. The quantity, rate and amount of an item are Python floats produced by
  \<open>float(text)\<close> and combined by the validator's own arithmetic. They are modelled as
  IEEE-754 binary64 values: a finite value is the rational it denotes, the two zeros, the
  two infinities and NaN are separate values, and every operation rounds its exact result
  to the nearest binary64 value (ties to even), so overflow and underflow are visible.
  Coordinates and OCR confidences come from the OCR engine and are only sorted and
  averaged through library routines (\<open>sorted\<close>, \<open>np.mean\<close>); they are modelled as
  real numbers, the mean being the exact arithmetic mean.

  Strings. A Python \<open>str\<close> is modelled as a \<open>string\<close> holding its UTF-8 bytes.
  \<open>strip\<close> and \<open>lower\<close> act on the ASCII range; whitespace, letters and digits
  outside ASCII are not interpreted.
\<close>

subsection \<open>binary64 floats\<close>

datatype pyfloat = Fin rat | NegZero | PosInf | NegInf | NaN

definition pow2 :: "int \<Rightarrow> rat" where
  "pow2 k = (if 0 \<le> k then 2 ^ nat k else 1 / 2 ^ nat (- k))"

function bitlength :: "int \<Rightarrow> int" where
  "bitlength n = (if n \<le> 0 then 0 else 1 + bitlength (n div 2))"
  by pat_completeness auto
termination
  by (relation "measure nat") auto

declare bitlength.simps [simp del]

text \<open>
  \<open>bitlength n\<close> is the number of binary digits of \<open>n\<close>, and \<open>floor_log2 q\<close> the
  integer \<open>k\<close> with \<open>2^k \<le> q < 2^(k+1)\<close>, for \<open>q > 0\<close>.
\<close>

definition floor_log2 :: "rat \<Rightarrow> int" where
  "floor_log2 q =
     (if 1 \<le> q then bitlength \<lfloor>q\<rfloor> - 1 else - bitlength (\<lceil>1 / q\<rceil> - 1))"

definition round_half_even :: "rat \<Rightarrow> int" where
  "round_half_even m =
     (let f = \<lfloor>m\<rfloor>; r = m - of_int f
      in if r < 1 / 2 then f
         else if 1 / 2 < r then f + 1
         else if even f then f else f + 1)"

text \<open>
  Round a non-zero rational to binary64: 53 significant bits, least exponent \<open>-1074\<close>
  (subnormals), overflow to an infinity, underflow to a signed zero.
\<close>

definition round_double :: "rat \<Rightarrow> pyfloat" where
  "round_double q =
     (if q = 0 then Fin 0
      else
        let a = \<bar>q\<bar>;
            e = (if a < pow2 (- 1022) then - 1074 else floor_log2 a - 52);
            m = round_half_even (a / pow2 e);
            v = of_int m * pow2 e
        in if pow2 1024 \<le> v then (if q < 0 then NegInf else PosInf)
           else if m = 0 then (if q < 0 then NegZero else Fin 0)
           else Fin (if q < 0 then - v else v))"

fun fin_val :: "pyfloat \<Rightarrow> rat" where
  "fin_val (Fin q) = q"
| "fin_val _ = 0"

fun is_zero :: "pyfloat \<Rightarrow> bool" where
  "is_zero (Fin q) = (q = 0)"
| "is_zero NegZero = True"
| "is_zero _ = False"

fun is_inf :: "pyfloat \<Rightarrow> bool" where
  "is_inf PosInf = True"
| "is_inf NegInf = True"
| "is_inf _ = False"

fun sign_bit :: "pyfloat \<Rightarrow> bool" where
  "sign_bit (Fin q) = (q < 0)"
| "sign_bit NegZero = True"
| "sign_bit NegInf = True"
| "sign_bit _ = False"

definition zero_of :: "bool \<Rightarrow> pyfloat" where
  "zero_of neg = (if neg then NegZero else Fin 0)"

definition inf_of :: "bool \<Rightarrow> pyfloat" where
  "inf_of neg = (if neg then NegInf else PosInf)"

text \<open>Comparisons: every comparison with NaN is false, and the two zeros are equal.\<close>

fun flt :: "pyfloat \<Rightarrow> pyfloat \<Rightarrow> bool" where
  "flt NaN _ = False"
| "flt _ NaN = False"
| "flt PosInf _ = False"
| "flt _ NegInf = False"
| "flt NegInf _ = True"
| "flt _ PosInf = True"
| "flt x y = (fin_val x < fin_val y)"

definition fgt :: "pyfloat \<Rightarrow> pyfloat \<Rightarrow> bool" where
  "fgt x y = flt y x"

definition feq :: "pyfloat \<Rightarrow> pyfloat \<Rightarrow> bool" where
  "feq x y = (x \<noteq> NaN \<and> y \<noteq> NaN \<and> (x = y \<or> (is_zero x \<and> is_zero y)))"

definition fge :: "pyfloat \<Rightarrow> pyfloat \<Rightarrow> bool" where
  "fge x y = (flt y x \<or> feq x y)"

fun fneg :: "pyfloat \<Rightarrow> pyfloat" where
  "fneg (Fin q) = (if q = 0 then NegZero else Fin (- q))"
| "fneg NegZero = Fin 0"
| "fneg PosInf = NegInf"
| "fneg NegInf = PosInf"
| "fneg NaN = NaN"

definition fabs :: "pyfloat \<Rightarrow> pyfloat" where
  "fabs x = (if sign_bit x then fneg x else x)"

definition fadd :: "pyfloat \<Rightarrow> pyfloat \<Rightarrow> pyfloat" where
  "fadd x y =
     (if x = NaN \<or> y = NaN then NaN
      else if is_inf x then (if is_inf y \<and> x \<noteq> y then NaN else x)
      else if is_inf y then y
      else if is_zero x \<and> is_zero y then zero_of (sign_bit x \<and> sign_bit y)
      else round_double (fin_val x + fin_val y))"

definition fsub :: "pyfloat \<Rightarrow> pyfloat \<Rightarrow> pyfloat" where
  "fsub x y = fadd x (fneg y)"

definition fmul :: "pyfloat \<Rightarrow> pyfloat \<Rightarrow> pyfloat" where
  "fmul x y =
     (if x = NaN \<or> y = NaN then NaN
      else if is_inf x \<or> is_inf y then
        (if is_zero x \<or> is_zero y then NaN else inf_of (sign_bit x \<noteq> sign_bit y))
      else if is_zero x \<or> is_zero y then zero_of (sign_bit x \<noteq> sign_bit y)
      else round_double (fin_val x * fin_val y))"

datatype error = ZeroDivisionError | KeyError | ValueError

text \<open>Python's float division raises \<open>ZeroDivisionError\<close> when the divisor is a zero.\<close>

definition fdiv :: "pyfloat \<Rightarrow> pyfloat \<Rightarrow> error + pyfloat" where
  "fdiv x y =
     (if is_zero y then Inl ZeroDivisionError
      else if x = NaN \<or> y = NaN then Inr NaN
      else if is_inf x then
        (if is_inf y then Inr NaN else Inr (inf_of (sign_bit x \<noteq> sign_bit y)))
      else if is_inf y \<or> is_zero x then Inr (zero_of (sign_bit x \<noteq> sign_bit y))
      else Inr (round_double (fin_val x / fin_val y)))"

text \<open>\<open>max(a, b)\<close> keeps its first argument unless the second is greater.\<close>

definition pymax :: "pyfloat \<Rightarrow> pyfloat \<Rightarrow> pyfloat" where
  "pymax a b = (if fgt b a then b else a)"

subsection \<open>Strings\<close>

definition is_space :: "char \<Rightarrow> bool" where
  "is_space c = (let n = (of_char c :: int) in (9 \<le> n \<and> n \<le> 13) \<or> (28 \<le> n \<and> n \<le> 32))"

definition strip :: "string \<Rightarrow> string" where
  "strip s = rev (dropWhile is_space (rev (dropWhile is_space s)))"

text \<open>
  An upper-case ASCII letter (65 to 90) has bit 5 clear; setting it adds 32, which gives
  the lower-case letter.
\<close>

fun lower_char :: "char \<Rightarrow> char" where
  "lower_char (Char b0 b1 b2 b3 b4 b5 b6 b7) =
     (let n = (of_char (Char b0 b1 b2 b3 b4 b5 b6 b7) :: int)
      in if 65 \<le> n \<and> n \<le> 90 then Char b0 b1 b2 b3 b4 True b6 b7
         else Char b0 b1 b2 b3 b4 b5 b6 b7)"

definition lower :: "string \<Rightarrow> string" where
  "lower s = map lower_char s"

text \<open>\<open>s.replace(old, new)\<close> for a non-empty \<open>old\<close>: leftmost, non-overlapping.\<close>

fun replace :: "string \<Rightarrow> string \<Rightarrow> string \<Rightarrow> string" where
  "replace old new [] = []"
| "replace old new (c # cs) =
     (if old \<noteq> [] \<and> prefix old (c # cs)
      then new @ replace old new (drop (length old - 1) cs)
      else c # replace old new cs)"

text \<open>\<open>sep.join(parts)\<close>.\<close>

fun join :: "string \<Rightarrow> string list \<Rightarrow> string" where
  "join sep [] = []"
| "join sep [p] = p"
| "join sep (p # q # ps) = p @ sep @ join sep (q # ps)"

text \<open>The rupee sign U+20B9, as its three UTF-8 bytes.\<close>

definition rupee :: string where
  "rupee = [CHR 0xE2, CHR 0x82, CHR 0xB9]"

subsection \<open>The built-in \<open>float(str)\<close>\<close>

definition is_digit :: "char \<Rightarrow> bool" where
  "is_digit c = (let n = (of_char c :: int) in 48 \<le> n \<and> n \<le> 57)"

definition digit_val :: "char \<Rightarrow> int" where
  "digit_val c = of_char c - 48"

text \<open>
  A digit part: digits, with single underscores allowed between two digits. The result
  is the digits without the underscores.
\<close>

fun digitpart :: "string \<Rightarrow> string option" where
  "digitpart [] = None"
| "digitpart [c] = (if is_digit c then Some [c] else None)"
| "digitpart (c # d # cs) =
     (if is_digit c
      then map_option ((#) c) (digitpart (if d = CHR ''_'' then cs else d # cs))
      else None)"

definition digits_val :: "string \<Rightarrow> int" where
  "digits_val ds = foldl (\<lambda>n c. 10 * n + digit_val c) 0 ds"

definition pow10 :: "int \<Rightarrow> rat" where
  "pow10 k = (if 0 \<le> k then 10 ^ nat k else 1 / 10 ^ nat (- k))"

definition opt_digitpart :: "string \<Rightarrow> string option" where
  "opt_digitpart s = (if s = [] then Some [] else digitpart s)"

text \<open>The optional exponent \<open>("e" | "E") [sign] digitpart\<close>; the empty string is exponent 0.\<close>

definition parse_exponent :: "string \<Rightarrow> int option" where
  "parse_exponent s =
     (case s of
        [] \<Rightarrow> Some 0
      | _ # ex \<Rightarrow>
          (case ex of
             [] \<Rightarrow> None
           | c # cs \<Rightarrow>
               if c = CHR ''-'' then map_option (\<lambda>ds. - digits_val ds) (digitpart cs)
               else if c = CHR ''+'' then map_option (\<lambda>ds. digits_val ds) (digitpart cs)
               else map_option (\<lambda>ds. digits_val ds) (digitpart ex)))"

text \<open>
  An unsigned decimal literal \<open>number [exponent]\<close> with
  \<open>number ::= [digitpart] "." digitpart | digitpart ["."]\<close>, and its exact value.
\<close>

definition parse_decimal :: "string \<Rightarrow> rat option" where
  "parse_decimal s =
     (let is_e = (\<lambda>c. c = CHR ''e'' \<or> c = CHR ''E'');
          mant = takeWhile (\<lambda>c. \<not> is_e c) s;
          ex = dropWhile (\<lambda>c. \<not> is_e c) s;
          ip = takeWhile (\<lambda>c. c \<noteq> CHR ''.'') mant;
          fp = (case dropWhile (\<lambda>c. c \<noteq> CHR ''.'') mant of [] \<Rightarrow> [] | _ # r \<Rightarrow> r)
      in if ip = [] \<and> fp = [] then None
         else
           (case (opt_digitpart ip, opt_digitpart fp, parse_exponent ex) of
              (Some i, Some f, Some x) \<Rightarrow>
                Some (of_int (digits_val (i @ f)) * pow10 (x - int (length f)))
            | _ \<Rightarrow> None))"

text \<open>
  \<open>float(s)\<close>: surrounding whitespace is ignored, then an optional sign, then
  \<open>inf\<close>, \<open>infinity\<close> or \<open>nan\<close> in any case, or a decimal literal, whose value is
  rounded to binary64. Anything else raises \<open>ValueError\<close> (the result \<open>None\<close>).
\<close>

definition py_float :: "string \<Rightarrow> pyfloat option" where
  "py_float s =
     (case strip s of
        [] \<Rightarrow> None
      | c # cs \<Rightarrow>
          let neg = (c = CHR ''-'');
              body = (if c = CHR ''-'' \<or> c = CHR ''+'' then cs else c # cs)
          in if lower body = ''inf'' \<or> lower body = ''infinity'' then Some (inf_of neg)
             else if lower body = ''nan'' then Some NaN
             else
               (case parse_decimal body of
                  None \<Rightarrow> None
                | Some q \<Rightarrow>
                    Some (if q = 0 then zero_of neg
                          else round_double (if neg then - q else q))))"

section \<open>Data model\<close>

text \<open>
  A token is the dict built by \<open>OCRExtractor.extract\<close>, with the keys \<open>text\<close>,
  \<open>confidence\<close>, \<open>bbox\<close> and \<open>center\<close>; \<open>center\<close> is the pair \<open>(x, y)\<close>.
\<close>

record token =
  tok_text :: string
  tok_confidence :: real
  tok_bbox :: "(real \<times> real) list"
  tok_center :: "real \<times> real"

text \<open>
  An item is the dict built by \<open>TableParser._parse_row\<close> and read by \<open>BillValidator\<close>.
  The validator tests each of the four required keys for being absent or \<open>None\<close>; the
  value \<open>None\<close> of a field stands for both.
\<close>

record item =
  item_name :: "string option"
  item_quantity :: "pyfloat option"
  item_rate :: "pyfloat option"
  item_amount :: "pyfloat option"
  confidence :: real
  row_idx :: nat

text \<open>\<open>np.mean\<close> of a list of numbers.\<close>

definition np_mean :: "real list \<Rightarrow> real" where
  "np_mean xs = sum_list xs / of_nat (length xs)"

section \<open>RowGrouper: \<open>OCRExtractor.group_by_row\<close>\<close>

text \<open>
  The loop over \<open>sorted_items[1:]\<close>, with its two variables \<open>rows\<close> and
  \<open>current_row\<close>.
\<close>

fun group_loop ::
  "real \<Rightarrow> token list \<Rightarrow> token list list \<Rightarrow> token list \<Rightarrow> token list list \<times> token list"
where
  "group_loop y_tolerance [] rows current_row = (rows, current_row)"
| "group_loop y_tolerance (it # its) rows current_row =
     (let current_y = np_mean (map (\<lambda>t. snd (tok_center t)) current_row);
          item_y = snd (tok_center it)
      in if \<bar>item_y - current_y\<bar> \<le> y_tolerance
         then group_loop y_tolerance its rows (current_row @ [it])
         else group_loop y_tolerance its (rows @ [current_row]) [it])"

text \<open>
  \<open>sorted\<close> and \<open>list.sort\<close> are stable sorts by key, as \<open>sort_key\<close> is.
\<close>

definition group_by_row :: "token list \<Rightarrow> real \<Rightarrow> token list list" where
  "group_by_row items y_tolerance =
     (case sort_key (\<lambda>t. snd (tok_center t)) items of
        [] \<Rightarrow> []
      | first # rest \<Rightarrow>
          let (rows, current_row) = group_loop y_tolerance rest [] [first];
              rows = (if current_row \<noteq> [] then rows @ [current_row] else rows)
          in map (sort_key (\<lambda>t. fst (tok_center t))) rows)"

section \<open>RowParser: \<open>TableParser\<close>\<close>

definition is_numeric :: "string \<Rightarrow> bool" where
  "is_numeric text =
     (let text = strip text
      in if text = [] then False
         else
           let cleaned = replace '','' [] (replace ''$'' [] (replace rupee [] text))
           in (case py_float cleaned of Some _ \<Rightarrow> True | None \<Rightarrow> False))"

text \<open>An unparsable text gives 0.0 (the \<open>ValueError\<close> is caught and logged).\<close>

definition parse_float :: "string \<Rightarrow> pyfloat" where
  "parse_float text =
     (let text = strip text;
          text = replace ''Rs'' [] (replace ''$'' [] (replace rupee [] text));
          text = replace '','' [] text
      in (case py_float text of Some v \<Rightarrow> v | None \<Rightarrow> Fin 0))"

text \<open>
  \<open>_parse_row\<close>. Every index read below is in range (the numeric columns are indices
  of \<open>texts\<close>), and no operation of the body raises on a token list, so the
  \<open>except\<close> branch of the body, which returns \<open>None\<close>, is not taken.
\<close>

text \<open>
  The loop \<open>for i, text in enumerate(texts)\<close> that collects the indices of the numeric
  texts.
\<close>

definition numeric_cols_of :: "string list \<Rightarrow> nat list" where
  "numeric_cols_of texts = map fst (filter (\<lambda>(i, text). is_numeric text) (enumerate 0 texts))"

definition parse_row :: "token list \<Rightarrow> nat \<Rightarrow> item option" where
  "parse_row row ridx =
     (if length row < 2 then None
      else
        let texts = map tok_text row;
            confidences = map tok_confidence row;
            numeric_cols = numeric_cols_of texts;
            n = length numeric_cols
        in if 3 \<le> n then
             let qty_idx = numeric_cols ! (n - 3);
                 rate_idx = numeric_cols ! (n - 2);
                 amount_idx = numeric_cols ! (n - 1);
                 name_parts = take qty_idx texts;
                 name = strip (join '' '' name_parts);
                 qty = parse_float (texts ! qty_idx);
                 rate = parse_float (texts ! rate_idx);
                 amount = parse_float (texts ! amount_idx);
                 conf = np_mean [confidences ! qty_idx, confidences ! rate_idx,
                                 confidences ! amount_idx]
             in Some \<lparr>item_name = Some name, item_quantity = Some qty, item_rate = Some rate,
                      item_amount = Some amount, confidence = conf, row_idx = ridx\<rparr>
           else if 1 \<le> n then
             let amount = parse_float (texts ! (numeric_cols ! (n - 1)))
             in Some \<lparr>item_name = Some (strip (join '' '' (butlast texts))),
                      item_quantity = Some (Fin 1), item_rate = Some amount,
                      item_amount = Some amount, confidence = 1 / 2, row_idx = ridx\<rparr>
           else None)"

text \<open>
  \<open>parse_rows\<close>: the loop over \<open>enumerate(rows)\<close> with its \<open>try\<close>/\<open>except\<close>. The
  loop is written for any row parser \<open>p\<close> that returns an item, \<open>None\<close> or raises
  (\<open>Inl\<close>), which is what the \<open>except Exception\<close> clause is about: a row is skipped
  when \<open>p\<close> raises or returns \<open>None\<close>.
\<close>

fun parse_rows_with ::
  "(token list \<Rightarrow> nat \<Rightarrow> error + item option) \<Rightarrow> nat \<Rightarrow> token list list \<Rightarrow> item list"
where
  "parse_rows_with p i [] = []"
| "parse_rows_with p i (row # rows) =
     (case p row i of
        Inr (Some it) \<Rightarrow> it # parse_rows_with p (Suc i) rows
      | Inr None \<Rightarrow> parse_rows_with p (Suc i) rows
      | Inl e \<Rightarrow> parse_rows_with p (Suc i) rows)"

definition parse_rows :: "token list list \<Rightarrow> item list" where
  "parse_rows rows = parse_rows_with (\<lambda>row i. Inr (parse_row row i)) 0 rows"

section \<open>Validator: \<open>BillValidator\<close>\<close>

text \<open>
  The validation messages. Each constructor is one of the f-strings of the source,
  with the values it interpolates:
  \<open>Starting n\<close> is "Starting validation with n items",
  \<open>ItemMissing f it\<close> is "Item missing f: it",
  \<open>ZeroAmount name\<close> is "Zero amount item: name",
  \<open>ValidationError e\<close> is "Validation error: e",
  \<open>Valid name\<close> is "Valid: name",
  \<open>AfterAmount n\<close> is "After amount validation: n items",
  \<open>DuplicateRemoved name qty rate\<close> is "Duplicate removed: name (qty=qty, rate=rate)",
  \<open>RemovedDuplicates n\<close> is "Removed n duplicate items",
  \<open>AfterSubtotal n\<close> is "After subtotal filtering: n items".
  Lines written to the logger are not part of any result and are not modelled.
\<close>

datatype msg =
    Starting nat
  | ItemMissing string item
  | ZeroAmount string
  | ValidationError error
  | Valid string
  | AfterAmount nat
  | DuplicateRemoved string pyfloat pyfloat
  | RemovedDuplicates nat
  | AfterSubtotal nat

text \<open>
  The relative error of \<open>_validate_item\<close>:
  \<open>abs(amount - calculated_amount) / max(amount, calculated_amount)\<close>.
\<close>

definition relative_error :: "pyfloat \<Rightarrow> pyfloat \<Rightarrow> error + pyfloat" where
  "relative_error amount calculated_amount =
     fdiv (fabs (fsub amount calculated_amount)) (pymax amount calculated_amount)"

text \<open>
  \<open>_validate_item\<close>. The comparison of the relative error with
  \<open>self.amount_tolerance\<close> only writes a debug line; an exception of the body is caught
  and gives \<open>(False, "Validation error: ...")\<close>.
\<close>

definition validate_item :: "item \<Rightarrow> bool \<times> msg" where
  "validate_item it =
     (case item_name it of
        None \<Rightarrow> (False, ItemMissing ''item_name'' it)
      | Some name \<Rightarrow>
     (case item_quantity it of
        None \<Rightarrow> (False, ItemMissing ''item_quantity'' it)
      | Some qty \<Rightarrow>
     (case item_rate it of
        None \<Rightarrow> (False, ItemMissing ''item_rate'' it)
      | Some rate \<Rightarrow>
     (case item_amount it of
        None \<Rightarrow> (False, ItemMissing ''item_amount'' it)
      | Some amount \<Rightarrow>
          if feq amount (Fin 0) \<and> feq qty (Fin 0) then (False, ZeroAmount name)
          else if fgt qty (Fin 0) \<and> fgt rate (Fin 0) then
            (case relative_error amount (fmul qty rate) of
               Inl e \<Rightarrow> (False, ValidationError e)
             | Inr err \<Rightarrow> (True, Valid name))
          else (True, Valid name)))))"

text \<open>
  \<open>_create_hash\<close>. \<open>md5\<close> stands for \<open>hashlib.md5(...).hexdigest()\<close> and \<open>fstr\<close>
  for the formatting of a float in an f-string; both are library functions and
  parameters of the model.
\<close>

definition create_hash ::
  "(string \<Rightarrow> string) \<Rightarrow> (pyfloat \<Rightarrow> string) \<Rightarrow> string \<Rightarrow> pyfloat \<Rightarrow> pyfloat \<Rightarrow> string"
where
  "create_hash md5 fstr name qty rate =
     md5 (strip (lower name) @ ''|'' @ fstr qty @ ''|'' @ fstr rate)"

text \<open>
  The loop of \<open>_remove_duplicates\<close>, with its variables \<open>seen_hashes\<close>,
  \<open>deduplicated\<close>, \<open>duplicates_found\<close> and \<open>messages\<close>. Reading a key that an item
  does not have raises \<open>KeyError\<close>.
\<close>

fun dedup_loop ::
  "(string \<Rightarrow> string) \<Rightarrow> (pyfloat \<Rightarrow> string) \<Rightarrow> item list \<Rightarrow> string set \<Rightarrow> item list \<Rightarrow> nat
     \<Rightarrow> msg list \<Rightarrow> error + (item list \<times> nat \<times> msg list)"
where
  "dedup_loop md5 fstr [] seen_hashes deduplicated duplicates_found messages =
     Inr (deduplicated, duplicates_found, messages)"
| "dedup_loop md5 fstr (it # its) seen_hashes deduplicated duplicates_found messages =
     (case (item_name it, item_quantity it, item_rate it) of
        (Some name, Some qty, Some rate) \<Rightarrow>
          let hash_key = create_hash md5 fstr name qty rate
          in if hash_key \<notin> seen_hashes
             then dedup_loop md5 fstr its (insert hash_key seen_hashes) (deduplicated @ [it])
                    duplicates_found messages
             else dedup_loop md5 fstr its seen_hashes deduplicated (duplicates_found + 1)
                    (messages @ [DuplicateRemoved name qty rate])
      | _ \<Rightarrow> Inl KeyError)"

definition remove_duplicates ::
  "(string \<Rightarrow> string) \<Rightarrow> (pyfloat \<Rightarrow> string) \<Rightarrow> item list \<Rightarrow> error + (item list \<times> msg list)"
where
  "remove_duplicates md5 fstr items =
     (case dedup_loop md5 fstr items {} [] 0 [] of
        Inl e \<Rightarrow> Inl e
      | Inr (deduplicated, duplicates_found, messages) \<Rightarrow>
          Inr (deduplicated,
               if 0 < duplicates_found then messages @ [RemovedDuplicates duplicates_found]
               else messages))"

definition subtotal_keywords :: "string list" where
  "subtotal_keywords = [''subtotal'', ''sub-total'', ''total'', ''tax'', ''gst'', ''discount'']"

text \<open>
  The test of \<open>_filter_subtotals\<close> on one item: a keyword occurs in the lower-cased
  name, or \<open>qty == 0 or qty == 1 and rate == 0\<close>.
\<close>

definition is_subtotal :: "string \<Rightarrow> pyfloat \<Rightarrow> pyfloat \<Rightarrow> bool" where
  "is_subtotal nm qty rate =
     (let name = lower nm
      in if list_ex (\<lambda>keyword. sublist keyword name) subtotal_keywords then True
         else feq qty (Fin 0) \<or> (feq qty (Fin 1) \<and> feq rate (Fin 0)))"

fun filter_loop :: "item list \<Rightarrow> item list \<Rightarrow> error + item list" where
  "filter_loop [] filtered = Inr filtered"
| "filter_loop (it # its) filtered =
     (case (item_name it, item_quantity it, item_rate it) of
        (Some nm, Some qty, Some rate) \<Rightarrow>
          if is_subtotal nm qty rate then filter_loop its filtered
          else filter_loop its (filtered @ [it])
      | _ \<Rightarrow> Inl KeyError)"

definition filter_subtotals :: "item list \<Rightarrow> error + item list" where
  "filter_subtotals items = filter_loop items []"

text \<open>Step 1 of \<open>validate_and_clean\<close>: the loop that calls \<open>_validate_item\<close>.\<close>

fun validate_loop :: "item list \<Rightarrow> item list \<Rightarrow> msg list \<Rightarrow> item list \<times> msg list" where
  "validate_loop [] validated_items messages = (validated_items, messages)"
| "validate_loop (it # its) validated_items messages =
     (case validate_item it of
        (True, m) \<Rightarrow> validate_loop its (validated_items @ [it]) messages
      | (False, m) \<Rightarrow> validate_loop its validated_items (messages @ [m]))"

definition validate_and_clean ::
  "(string \<Rightarrow> string) \<Rightarrow> (pyfloat \<Rightarrow> string) \<Rightarrow> item list \<Rightarrow> error + (item list \<times> msg list)"
where
  "validate_and_clean md5 fstr items =
     (let (validated_items, messages) = validate_loop items [] [Starting (length items)];
          messages = messages @ [AfterAmount (length validated_items)]
      in case remove_duplicates md5 fstr validated_items of
           Inl e \<Rightarrow> Inl e
         | Inr (deduplicated, dup_msgs) \<Rightarrow>
             (case filter_subtotals deduplicated of
                Inl e \<Rightarrow> Inl e
              | Inr final_items \<Rightarrow>
                  Inr (final_items,
                       messages @ dup_msgs @ [AfterSubtotal (length final_items)])))"

text \<open>
  The hash that \<open>_remove_duplicates\<close> computes for an item that has a name, a quantity
  and a rate (the fingerprint of the item), and the test of \<open>_filter_subtotals\<close> on
  such an item. Both are used to state properties of the validator.
\<close>

definition fingerprint :: "(string \<Rightarrow> string) \<Rightarrow> (pyfloat \<Rightarrow> string) \<Rightarrow> item \<Rightarrow> string" where
  "fingerprint md5 fstr it =
     create_hash md5 fstr (the (item_name it)) (the (item_quantity it)) (the (item_rate it))"

definition has_fields :: "item \<Rightarrow> bool" where
  "has_fields it =
     (item_name it \<noteq> None \<and> item_quantity it \<noteq> None \<and> item_rate it \<noteq> None)"

definition subtotal_item :: "item \<Rightarrow> bool" where
  "subtotal_item it =
     is_subtotal (the (item_name it)) (the (item_quantity it)) (the (item_rate it))"

section \<open>Facts about the built-ins\<close>

subsection \<open>Evaluating floats on numerals\<close>

lemma floor_rat_numeral [simp]:
  "\<lfloor>numeral a / numeral b :: rat\<rfloor> = numeral a div numeral b"
  using floor_divide_of_int_eq[of "numeral a" "numeral b", where ?'a = rat] by simp

lemma floor_rat_one [simp]: "\<lfloor>1 / numeral b :: rat\<rfloor> = 1 div numeral b"
  using floor_divide_of_int_eq[of 1 "numeral b", where ?'a = rat] by simp

lemma ceiling_rat_numeral [simp]:
  "\<lceil>numeral a / numeral b :: rat\<rceil> = - ((- numeral a) div numeral b)"
  using floor_divide_of_int_eq[of "- numeral a" "numeral b", where ?'a = rat]
  by (simp add: ceiling_def)

lemma ceiling_rat_one [simp]: "\<lceil>1 / numeral b :: rat\<rceil> = - ((- 1) div numeral b)"
  using floor_divide_of_int_eq[of "- 1" "numeral b", where ?'a = rat]
  by (simp add: ceiling_def)

lemma bitlength_0 [simp]: "bitlength 0 = 0"
  by (simp add: bitlength.simps)

lemma bitlength_1 [simp]: "bitlength 1 = 1"
  by (simp add: bitlength.simps[of 1] bitlength.simps[of 0])

lemma bitlength_Bit0 [simp]: "bitlength (numeral (Num.Bit0 n)) = 1 + bitlength (numeral n)"
  by (subst bitlength.simps) simp

lemma bitlength_Bit1 [simp]: "bitlength (numeral (Num.Bit1 n)) = 1 + bitlength (numeral n)"
  by (subst bitlength.simps) simp

lemma bitlength_One [simp]: "bitlength (numeral Num.One) = 1"
  by simp

lemmas round_defs = round_double_def floor_log2_def pow2_def round_half_even_def Let_def

lemmas float_defs = fmul_def fadd_def fsub_def fdiv_def fabs_def pymax_def fgt_def feq_def
  fge_def zero_of_def inf_of_def relative_error_def

lemmas py_float_defs = py_float_def strip_def is_space_def lower_def parse_decimal_def
  opt_digitpart_def parse_exponent_def is_digit_def digits_val_def digit_val_def pow10_def
  zero_of_def inf_of_def

lemmas text_defs = is_numeric_def parse_float_def rupee_def

subsection \<open>Numeric detection\<close>

lemma is_numeric_iff:
  "is_numeric t \<longleftrightarrow>
     strip t \<noteq> [] \<and>
     py_float (replace '','' [] (replace ''$'' [] (replace rupee [] (strip t)))) \<noteq> None"
  by (simp add: is_numeric_def Let_def split: option.splits)

subsection \<open>The loops of the validator\<close>


lemma validate_loop_eq:
  "validate_loop its acc msgs =
     (acc @ filter (\<lambda>it. fst (validate_item it)) its,
      msgs @ map (\<lambda>it. snd (validate_item it)) (filter (\<lambda>it. \<not> fst (validate_item it)) its))"
proof (induction its arbitrary: acc msgs)
  case Nil
  show ?case by simp
next
  case (Cons it its)
  obtain ok m where v: "validate_item it = (ok, m)" by (cases "validate_item it")
  show ?case by (cases ok) (simp_all add: v Cons.IH)
qed

lemma valid_has_fields: "fst (validate_item it) \<Longrightarrow> has_fields it"
  by (auto simp: validate_item_def has_fields_def split: option.splits)

lemma valid_has_amount: "fst (validate_item it) \<Longrightarrow> item_amount it \<noteq> None"
  by (auto simp: validate_item_def split: option.splits)

lemma filter_loop_eq:
  "list_all has_fields its \<Longrightarrow>
   filter_loop its acc = Inr (acc @ filter (\<lambda>it. \<not> subtotal_item it) its)"
proof (induction its arbitrary: acc)
  case Nil
  show ?case by simp
next
  case (Cons it its)
  then have f: "has_fields it" and r: "list_all has_fields its" by simp_all
  from f obtain n q r' where "item_name it = Some n" "item_quantity it = Some q" "item_rate it = Some r'"
    by (auto simp: has_fields_def)
  then show ?case using Cons.IH[OF r] by (simp add: subtotal_item_def)
qed

lemma dedup_loop_distinct:
  "list_all has_fields its \<Longrightarrow> distinct (map (fingerprint md5 fstr) its) \<Longrightarrow>
   \<forall>it \<in> set its. fingerprint md5 fstr it \<notin> seen \<Longrightarrow>
   dedup_loop md5 fstr its seen acc found msgs = Inr (acc @ its, found, msgs)"
proof (induction its arbitrary: seen acc)
  case Nil
  show ?case by simp
next
  case (Cons it its)
  then have f: "has_fields it" and r: "list_all has_fields its" by simp_all
  from f obtain n q r' where fs: "item_name it = Some n" "item_quantity it = Some q" "item_rate it = Some r'"
    by (auto simp: has_fields_def)
  have h: "create_hash md5 fstr n q r' = fingerprint md5 fstr it" by (simp add: fingerprint_def fs)
  have "dedup_loop md5 fstr its (insert (fingerprint md5 fstr it) seen) (acc @ [it]) found msgs
        = Inr ((acc @ [it]) @ its, found, msgs)"
    using Cons.prems by (intro Cons.IH[OF r]) (auto simp: image_iff)
  then show ?case using Cons.prems by (simp add: fs h)
qed

lemma dedup_loop_props:
  "list_all has_fields its \<Longrightarrow>
   \<exists>kept ms. dedup_loop md5 fstr its seen acc found msgs = Inr (acc @ kept, found + length ms, msgs @ ms)
     \<and> subseq kept its \<and> distinct (map (fingerprint md5 fstr) kept)
     \<and> (\<forall>it \<in> set kept. fingerprint md5 fstr it \<notin> seen)"
proof (induction its arbitrary: seen acc found msgs)
  case Nil
  show ?case by simp
next
  case (Cons it its)
  then have f: "has_fields it" and r: "list_all has_fields its" by simp_all
  from f obtain n q r' where fs: "item_name it = Some n" "item_quantity it = Some q" "item_rate it = Some r'"
    by (auto simp: has_fields_def)
  have h: "create_hash md5 fstr n q r' = fingerprint md5 fstr it" by (simp add: fingerprint_def fs)
  show ?case
  proof (cases "fingerprint md5 fstr it \<in> seen")
    case True
    from Cons.IH[OF r, of seen acc "found + 1" "msgs @ [DuplicateRemoved n q r']"]
    obtain kept ms where k: "dedup_loop md5 fstr its seen acc (found + 1) (msgs @ [DuplicateRemoved n q r'])
        = Inr (acc @ kept, found + 1 + length ms, (msgs @ [DuplicateRemoved n q r']) @ ms)"
      "subseq kept its" "distinct (map (fingerprint md5 fstr) kept)"
      "\<forall>it \<in> set kept. fingerprint md5 fstr it \<notin> seen" by blast
    show ?thesis
      apply (rule exI[of _ kept], rule exI[of _ "DuplicateRemoved n q r' # ms"])
      using True k by (simp add: fs h list_emb_Cons)
  next
    case False
    from Cons.IH[OF r, of "insert (fingerprint md5 fstr it) seen" "acc @ [it]" found msgs]
    obtain kept ms where k: "dedup_loop md5 fstr its (insert (fingerprint md5 fstr it) seen) (acc @ [it]) found msgs
        = Inr ((acc @ [it]) @ kept, found + length ms, msgs @ ms)"
      "subseq kept its" "distinct (map (fingerprint md5 fstr) kept)"
      "\<forall>i \<in> set kept. fingerprint md5 fstr i \<notin> insert (fingerprint md5 fstr it) seen" by blast
    show ?thesis
      apply (rule exI[of _ "it # kept"], rule exI[of _ ms])
      using False k by (auto simp add: fs h)
  qed
qed


lemma remove_duplicates_props:
  assumes "list_all has_fields its"
  shows "\<exists>kept ms. remove_duplicates md5 fstr its = Inr (kept, ms)
     \<and> subseq kept its \<and> distinct (map (fingerprint md5 fstr) kept)"
proof -
  from dedup_loop_props[OF assms, of md5 fstr "{}" "[]" 0 "[]"]
  obtain kept ms where k: "dedup_loop md5 fstr its {} [] 0 [] = Inr ([] @ kept, 0 + length ms, [] @ ms)"
    "subseq kept its" "distinct (map (fingerprint md5 fstr) kept)" by blast
  then show ?thesis by (simp add: remove_duplicates_def)
qed

lemma remove_duplicates_distinct:
  assumes "list_all has_fields its" "distinct (map (fingerprint md5 fstr) its)"
  shows "remove_duplicates md5 fstr its = Inr (its, [])"
  using dedup_loop_distinct[OF assms, of "{}" "[]" 0 "[]"]
  by (simp add: remove_duplicates_def)

lemma subseq_list_all: "subseq xs ys \<Longrightarrow> list_all P ys \<Longrightarrow> list_all P xs"
  by (induction rule: list_emb.induct) auto

lemma validate_and_clean_props:
  "\<exists>kept ms. validate_and_clean md5 fstr items =
       Inr (filter (\<lambda>it. \<not> subtotal_item it) kept,
            Starting (length items)
              # map (\<lambda>it. snd (validate_item it)) (filter (\<lambda>it. \<not> fst (validate_item it)) items)
              @ [AfterAmount (length (filter (\<lambda>it. fst (validate_item it)) items))]
              @ ms
              @ [AfterSubtotal (length (filter (\<lambda>it. \<not> subtotal_item it) kept))])
     \<and> subseq kept (filter (\<lambda>it. fst (validate_item it)) items)
     \<and> distinct (map (fingerprint md5 fstr) kept)"
proof -
  let ?valid = "filter (\<lambda>it. fst (validate_item it)) items"
  have hv: "list_all has_fields ?valid"
    by (simp add: list_all_iff valid_has_fields)
  from remove_duplicates_props[OF hv, of md5 fstr]
  obtain kept ms where k: "remove_duplicates md5 fstr ?valid = Inr (kept, ms)"
    "subseq kept ?valid" "distinct (map (fingerprint md5 fstr) kept)" by blast
  have hk: "list_all has_fields kept"
    using subseq_list_all[OF k(2) hv] .
  have "validate_and_clean md5 fstr items =
       Inr (filter (\<lambda>it. \<not> subtotal_item it) kept,
            Starting (length items)
              # map (\<lambda>it. snd (validate_item it)) (filter (\<lambda>it. \<not> fst (validate_item it)) items)
              @ [AfterAmount (length ?valid)]
              @ ms
              @ [AfterSubtotal (length (filter (\<lambda>it. \<not> subtotal_item it) kept))])"
    by (simp add: validate_and_clean_def validate_loop_eq k(1) filter_subtotals_def
        filter_loop_eq[OF hk])
  with k show ?thesis by blast
qed

subsection \<open>The row parser\<close>

lemma numeric_enumerate_Suc:
  "map fst (filter (\<lambda>(i, text). is_numeric text) (enumerate (Suc k) texts)) =
     map Suc (map fst (filter (\<lambda>(i, text). is_numeric text) (enumerate k texts)))"
  by (induction texts arbitrary: k) auto

lemma numeric_cols_of_Nil: "numeric_cols_of [] = []"
  by (simp add: numeric_cols_of_def)

lemma numeric_cols_of_Cons:
  "numeric_cols_of (t # texts) =
     (if is_numeric t then [0] else []) @ map Suc (numeric_cols_of texts)"
  using numeric_enumerate_Suc[of 0 texts] by (simp add: numeric_cols_of_def)



lemma numeric_cols_of_set:
  "set (numeric_cols_of texts) = {i. i < length texts \<and> is_numeric (texts ! i)}"
proof (induction texts)
  case Nil
  show ?case by (simp add: numeric_cols_of_Nil)
next
  case (Cons t texts)
  have "{i. i < length (t # texts) \<and> is_numeric ((t # texts) ! i)}
        = (if is_numeric t then {0} else {}) \<union> Suc ` {i. i < length texts \<and> is_numeric (texts ! i)}"
  proof (rule set_eqI)
    fix i
    show "i \<in> {i. i < length (t # texts) \<and> is_numeric ((t # texts) ! i)} \<longleftrightarrow>
          i \<in> (if is_numeric t then {0} else {})
                \<union> Suc ` {i. i < length texts \<and> is_numeric (texts ! i)}"
      by (cases i) (auto simp: image_iff)
  qed
  then show ?case by (simp add: numeric_cols_of_Cons Cons.IH)
qed

lemma length_numeric_cols_of:
  "length (numeric_cols_of (map tok_text row)) = length (filter (\<lambda>t. is_numeric (tok_text t)) row)"
  by (induction row) (simp_all add: numeric_cols_of_Cons numeric_cols_of_Nil)



lemma numeric_col_token:
  assumes "j < length (numeric_cols_of (map tok_text row))"
  shows "\<exists>t \<in> set row. is_numeric (tok_text t)
           \<and> map tok_text row ! (numeric_cols_of (map tok_text row) ! j) = tok_text t"
proof -
  let ?i = "numeric_cols_of (map tok_text row) ! j"
  from assms have "?i \<in> set (numeric_cols_of (map tok_text row))" by (rule nth_mem)
  then have "?i \<in> {i. i < length (map tok_text row) \<and> is_numeric (map tok_text row ! i)}"
    unfolding numeric_cols_of_set .
  then have i: "?i < length row" and n: "is_numeric (map tok_text row ! ?i)"
    by auto
  have m: "map tok_text row ! ?i = tok_text (row ! ?i)"
    using i by simp
  have "row ! ?i \<in> set row" using i by simp
  moreover have "is_numeric (tok_text (row ! ?i))" using n unfolding m .
  ultimately show ?thesis using m by blast
qed

lemma parse_row_fields:
  assumes "parse_row row ridx = Some it"
  shows "\<exists>q r a. item_quantity it = Some q \<and> item_rate it = Some r \<and> item_amount it = Some a
           \<and> (q = Fin 1 \<or> (\<exists>t \<in> set row. is_numeric (tok_text t) \<and> q = parse_float (tok_text t)))
           \<and> (\<exists>t \<in> set row. is_numeric (tok_text t) \<and> r = parse_float (tok_text t))
           \<and> (\<exists>t \<in> set row. is_numeric (tok_text t) \<and> a = parse_float (tok_text t))"
proof -
  let ?nc = "numeric_cols_of (map tok_text row)"
  let ?n = "length ?nc"
  show ?thesis
  proof (cases "3 \<le> ?n")
    case True
    then have j: "?n - 3 < ?n" "?n - 2 < ?n" "?n - 1 < ?n" by simp_all
    from numeric_col_token[OF j(1)] numeric_col_token[OF j(2)] numeric_col_token[OF j(3)]
    obtain tq tr ta where t: "tq \<in> set row" "is_numeric (tok_text tq)"
        "map tok_text row ! (?nc ! (?n - 3)) = tok_text tq"
        "tr \<in> set row" "is_numeric (tok_text tr)"
        "map tok_text row ! (?nc ! (?n - 2)) = tok_text tr"
        "ta \<in> set row" "is_numeric (tok_text ta)"
        "map tok_text row ! (?nc ! (?n - 1)) = tok_text ta" by blast
    have t9: "map tok_text row ! (?nc ! (?n - Suc 0)) = tok_text ta"
      using t(9) by simp
    from assms True have "item_quantity it = Some (parse_float (tok_text tq))"
      "item_rate it = Some (parse_float (tok_text tr))"
      "item_amount it = Some (parse_float (tok_text ta))"
      by (auto simp: parse_row_def Let_def t(3,6) t9 split: if_splits)
    with t show ?thesis by blast
  next
    case False
    with assms have n: "1 \<le> ?n"
      by (auto simp: parse_row_def Let_def split: if_splits)
    then have j: "?n - 1 < ?n" by simp
    from numeric_col_token[OF j]
    obtain ta where t: "ta \<in> set row" "is_numeric (tok_text ta)"
        "map tok_text row ! (?nc ! (?n - 1)) = tok_text ta" by blast
    have t3: "map tok_text row ! (?nc ! (?n - Suc 0)) = tok_text ta"
      using t(3) by simp
    from assms False n have "item_quantity it = Some (Fin 1)"
      "item_rate it = Some (parse_float (tok_text ta))"
      "item_amount it = Some (parse_float (tok_text ta))"
      by (auto simp: parse_row_def Let_def t3 split: if_splits)
    with t show ?thesis by blast
  qed
qed

lemma parse_rows_with_mem:
  "it \<in> set (parse_rows_with p i rows) \<Longrightarrow> \<exists>row \<in> set rows. \<exists>j. p row j = Inr (Some it)"
proof (induction rows arbitrary: i)
  case Nil
  then show ?case by simp
next
  case (Cons row rows)
  then show ?case by (fastforce split: sum.splits option.splits)
qed

lemma parse_rows_with_append:
  "parse_rows_with p i (rows1 @ rows2) =
     parse_rows_with p i rows1 @ parse_rows_with p (i + length rows1) rows2"
proof (induction rows1 arbitrary: i)
  case Nil
  show ?case by simp
next
  case (Cons row rows1)
  show ?case by (simp add: Cons.IH split: sum.splits option.splits)
qed

subsection \<open>The row grouper\<close>





lemmas parse_defs = parse_row_def numeric_cols_of_def text_defs py_float_defs round_defs
  np_mean_def

section \<open>The claims\<close>




text \<open>
  C2. The claim: a token text is numeric if and only if, after removing the currency
  markers (the rupee sign, \<open>$\<close>, \<open>Rs\<close>) and the commas, the rest parses as a float; in
  particular \<open>Rs500\<close> is numeric. The code: \<open>_is_numeric\<close> removes the rupee sign,
  \<open>$\<close> and the commas but not \<open>Rs\<close>, which only \<open>_parse_float\<close> removes. So
  \<open>Rs500\<close> is not numeric, although the text with all markers removed parses, and
  \<open>_parse_float\<close> reads it as 500.0.
\<close>

theorem C2_Rs500_not_numeric:
  "is_numeric ''Rs500'' = False
   \<and> py_float (replace '','' [] (replace ''Rs'' [] (replace ''$'' []
        (replace rupee [] (strip ''Rs500''))))) = Some (Fin 500)
   \<and> parse_float ''Rs500'' = Fin 500"
  by (simp add: text_defs py_float_defs round_defs)

text \<open>
  C3. The claim: the messages hold the initial count, the count after each of the
  three stages, and one message per dropped item, also for the items the subtotal
  filter drops. The code: \<open>_filter_subtotals\<close> returns no message, and no count is
  recorded after the deduplication. For the single item \<open>GST 18%\<close> (quantity 2, rate 5,
  amount 10) the item is dropped by the subtotal filter and the messages are exactly
  the three counts below, for any hash and float formatting.
\<close>

theorem C3_subtotal_drop_has_no_message:
  "validate_and_clean md5 fstr
     [\<lparr>item_name = Some ''GST 18%'', item_quantity = Some (Fin 2), item_rate = Some (Fin 5),
       item_amount = Some (Fin 10), confidence = 1, row_idx = 0\<rparr>]
   = Inr ([], [Starting 1, AfterAmount 1, AfterSubtotal 0])"
  by (simp add: validate_and_clean_def validate_item_def remove_duplicates_def
      filter_subtotals_def is_subtotal_def subtotal_keywords_def lower_def sublist_code
      float_defs round_defs)

text \<open>
  C4. The claim: every item of the row parser has non-negative quantity, rate and
  amount, also when numeric tokens carry a minus sign. The code keeps the sign:
  quantity, rate and amount are the parsed values of numeric tokens of the row (the
  quantity is 1.0 in the fallback of one or two numeric tokens). So the fields are
  non-negative for rows whose numeric tokens all parse to non-negative values.
\<close>

theorem C4_fields_nonnegative_for_nonnegative_tokens:
  assumes "it \<in> set (parse_rows rows)"
    and "\<forall>row \<in> set rows. \<forall>t \<in> set row.
           is_numeric (tok_text t) \<longrightarrow> fge (parse_float (tok_text t)) (Fin 0)"
  shows "\<exists>q r a. item_quantity it = Some q \<and> item_rate it = Some r \<and> item_amount it = Some a
           \<and> fge q (Fin 0) \<and> fge r (Fin 0) \<and> fge a (Fin 0)"
proof -
  from assms(1) obtain row j where row: "row \<in> set rows" "parse_row row j = Some it"
    using parse_rows_with_mem[of it "\<lambda>row i. Inr (parse_row row i)" 0 rows]
    by (auto simp: parse_rows_def)
  have one: "fge (Fin 1) (Fin 0)" by (simp add: fge_def)
  from parse_row_fields[OF row(2)] row(1) assms(2) one show ?thesis by metis
qed

text \<open>The row \<open>x\<close>, \<open>-1\<close>, \<open>-2\<close>, \<open>-3\<close> gives an item with three negative fields.\<close>

theorem C4_minus_sign_counterexample:
  "parse_rows
     [[\<lparr>tok_text = ''x'', tok_confidence = 0.9, tok_bbox = [], tok_center = (10, 100)\<rparr>,
       \<lparr>tok_text = ''-1'', tok_confidence = 0.9, tok_bbox = [], tok_center = (60, 100)\<rparr>,
       \<lparr>tok_text = ''-2'', tok_confidence = 0.9, tok_bbox = [], tok_center = (120, 100)\<rparr>,
       \<lparr>tok_text = ''-3'', tok_confidence = 0.9, tok_bbox = [], tok_center = (160, 100)\<rparr>]]
   = [\<lparr>item_name = Some ''x'', item_quantity = Some (Fin (- 1)), item_rate = Some (Fin (- 2)),
         item_amount = Some (Fin (- 3)), confidence = 0.9, row_idx = 0\<rparr>]
   \<and> \<not> fge (Fin (- 1)) (Fin 0) \<and> \<not> fge (Fin (- 2)) (Fin 0) \<and> \<not> fge (Fin (- 3)) (Fin 0)"
  by (simp add: parse_rows_def parse_defs fge_def feq_def)

theorem C4_paracetamol_witness:
  "parse_rows
     [[\<lparr>tok_text = ''Paracetamol'', tok_confidence = 0.9, tok_bbox = [], tok_center = (10, 100)\<rparr>,
       \<lparr>tok_text = ''10'', tok_confidence = 0.9, tok_bbox = [], tok_center = (60, 100)\<rparr>,
       \<lparr>tok_text = ''5'', tok_confidence = 0.9, tok_bbox = [], tok_center = (120, 100)\<rparr>,
       \<lparr>tok_text = ''50'', tok_confidence = 0.9, tok_bbox = [], tok_center = (160, 100)\<rparr>],
      [\<lparr>tok_text = ''Subtotal'', tok_confidence = 0.9, tok_bbox = [], tok_center = (10, 130)\<rparr>,
       \<lparr>tok_text = ''2500'', tok_confidence = 0.9, tok_bbox = [], tok_center = (160, 130)\<rparr>]]
   = [\<lparr>item_name = Some ''Paracetamol'', item_quantity = Some (Fin 10), item_rate = Some (Fin 5),
         item_amount = Some (Fin 50), confidence = 0.9, row_idx = 0\<rparr>,
      \<lparr>item_name = Some ''Subtotal'', item_quantity = Some (Fin 1), item_rate = Some (Fin 2500),
         item_amount = Some (Fin 2500), confidence = 1 / 2, row_idx = 1\<rparr>]
   \<and> (\<exists>q r a.
          item_quantity \<lparr>item_name = Some ''Paracetamol'', item_quantity = Some (Fin 10), item_rate = Some (Fin 5),
                          item_amount = Some (Fin 50), confidence = 0.9, row_idx = 0\<rparr> = Some q
        \<and> item_rate \<lparr>item_name = Some ''Paracetamol'', item_quantity = Some (Fin 10), item_rate = Some (Fin 5),
                           item_amount = Some (Fin 50), confidence = 0.9, row_idx = 0\<rparr> = Some r
        \<and> item_amount \<lparr>item_name = Some ''Paracetamol'', item_quantity = Some (Fin 10), item_rate = Some (Fin 5),
                             item_amount = Some (Fin 50), confidence = 0.9, row_idx = 0\<rparr> = Some a
        \<and> fge q (Fin 0) \<and> fge r (Fin 0) \<and> fge a (Fin 0))"
proof -
  let ?rows = "[[\<lparr>tok_text = ''Paracetamol'', tok_confidence = 0.9, tok_bbox = [], tok_center = (10, 100)\<rparr>,
                \<lparr>tok_text = ''10'', tok_confidence = 0.9, tok_bbox = [], tok_center = (60, 100)\<rparr>,
                \<lparr>tok_text = ''5'', tok_confidence = 0.9, tok_bbox = [], tok_center = (120, 100)\<rparr>,
                \<lparr>tok_text = ''50'', tok_confidence = 0.9, tok_bbox = [], tok_center = (160, 100)\<rparr>],
      [\<lparr>tok_text = ''Subtotal'', tok_confidence = 0.9, tok_bbox = [], tok_center = (10, 130)\<rparr>,
       \<lparr>tok_text = ''2500'', tok_confidence = 0.9, tok_bbox = [], tok_center = (160, 130)\<rparr>]]"
  let ?it = "\<lparr>item_name = Some ''Paracetamol'', item_quantity = Some (Fin 10), item_rate = Some (Fin 5),
               item_amount = Some (Fin 50), confidence = 0.9, row_idx = 0\<rparr>"
  have e: "parse_rows ?rows
     = [?it,
        \<lparr>item_name = Some ''Subtotal'', item_quantity = Some (Fin 1), item_rate = Some (Fin 2500),
          item_amount = Some (Fin 2500), confidence = 1 / 2, row_idx = 1\<rparr>]"
    by (simp add: parse_rows_def parse_defs)
  have m: "?it \<in> set (parse_rows ?rows)"
    unfolding e by simp
  have n: "\<forall>row \<in> set ?rows. \<forall>t \<in> set row.
           is_numeric (tok_text t) \<longrightarrow> fge (parse_float (tok_text t)) (Fin 0)"
    by (simp add: text_defs py_float_defs round_defs fge_def feq_def)
  from C4_fields_nonnegative_for_nonnegative_tokens[OF m n] e show ?thesis by blast
qed



text \<open>
  C6. Running \<open>validate_and_clean\<close> on the item list it returned gives the same item
  list again: nothing is rejected, no duplicate is found and the subtotal filter drops
  nothing, so the messages of the second run are the three counts, all equal. This
  holds for every hash function and float formatting.
\<close>

theorem C6_validate_and_clean_idempotent:
  "\<exists>out msgs. validate_and_clean md5 fstr items = Inr (out, msgs)
     \<and> validate_and_clean md5 fstr out
         = Inr (out, [Starting (length out), AfterAmount (length out), AfterSubtotal (length out)])"
proof -
  let ?valid = "filter (\<lambda>it. fst (validate_item it)) items"
  from validate_and_clean_props[of md5 fstr items]
  obtain kept msgs where k:
    "validate_and_clean md5 fstr items = Inr (filter (\<lambda>it. \<not> subtotal_item it) kept, msgs)"
    "subseq kept ?valid" "distinct (map (fingerprint md5 fstr) kept)" by blast
  let ?out = "filter (\<lambda>it. \<not> subtotal_item it) kept"
  have "list_all (\<lambda>it. fst (validate_item it)) ?valid" by (simp add: list_all_iff)
  then have vk: "list_all (\<lambda>it. fst (validate_item it)) kept"
    using subseq_list_all[OF k(2)] by blast
  then have vo: "\<forall>it \<in> set ?out. fst (validate_item it)" by (simp add: list_all_iff)
  have f1: "filter (\<lambda>it. fst (validate_item it)) ?out = ?out"
    using vo by (rule filter_True)
  have f2: "filter (\<lambda>it. \<not> fst (validate_item it)) ?out = []"
    by (rule filter_False) (use vo in blast)
  have ho: "list_all has_fields ?out" using vo by (simp add: list_all_iff valid_has_fields)
  have d: "distinct (map (fingerprint md5 fstr) ?out)" using k(3) by (rule distinct_map_filter)
  have f3: "filter (\<lambda>it. \<not> subtotal_item it) ?out = ?out" by simp
  have "validate_and_clean md5 fstr ?out
         = Inr (?out, [Starting (length ?out), AfterAmount (length ?out), AfterSubtotal (length ?out)])"
    unfolding validate_and_clean_def validate_loop_eq f1 f2
    by (simp add: remove_duplicates_distinct[OF ho d] filter_subtotals_def filter_loop_eq[OF ho])
  with k(1) show ?thesis by blast
qed

text \<open>
  C7. The core returns a result for every input. In \<open>parse_rows\<close> a row whose parsing
  raises is skipped and the rows after it are still parsed (for any row parser, at any
  position of the row); \<open>validate_and_clean\<close> returns for every item list (the
  \<open>KeyError\<close> of its last two stages never occurs, since the first stage keeps only
  items that have the keys); \<open>group_by_row\<close> and \<open>parse_rows\<close> have no failing
  operation on token lists; and the empty token list goes through the three stages to
  the empty item list.
\<close>

theorem C7_core_returns_for_every_input:
  assumes "p row (i + length rows1) = Inl e"
  shows "parse_rows_with p i (rows1 @ row # rows2) =
           parse_rows_with p i rows1 @ parse_rows_with p (Suc (i + length rows1)) rows2
         \<and> (\<exists>out msgs. validate_and_clean md5 fstr items = Inr (out, msgs))
         \<and> group_by_row [] y_tolerance = []
         \<and> parse_rows [] = []
         \<and> parse_rows (group_by_row [] y_tolerance) = []
         \<and> validate_and_clean md5 fstr (parse_rows (group_by_row [] y_tolerance))
             = Inr ([], [Starting 0, AfterAmount 0, AfterSubtotal 0])"
proof -
  have a: "parse_rows_with p i (rows1 @ row # rows2) =
           parse_rows_with p i rows1 @ parse_rows_with p (Suc (i + length rows1)) rows2"
    using assms by (simp add: parse_rows_with_append)
  have b: "\<exists>out msgs. validate_and_clean md5 fstr items = Inr (out, msgs)"
    using validate_and_clean_props[of md5 fstr items] by blast
  have c: "group_by_row [] y_tolerance = []" by (simp add: group_by_row_def)
  have d: "parse_rows [] = []" by (simp add: parse_rows_def)
  have e: "validate_and_clean md5 fstr [] = Inr ([], [Starting 0, AfterAmount 0, AfterSubtotal 0])"
    by (simp add: validate_and_clean_def remove_duplicates_def filter_subtotals_def)
  show ?thesis using a b c d e by simp
qed

text \<open>
  A row parser that raises on the row at index 1 and is \<open>_parse_row\<close> elsewhere: the
  rows at index 0 and 2 are parsed.
\<close>

theorem C7_raising_row_skipped_witness:
  "parse_rows_with (\<lambda>row i. if i = 1 then Inl ValueError else Inr (parse_row row i)) 0
     [[\<lparr>tok_text = ''Fee'', tok_confidence = 0.9, tok_bbox = [], tok_center = (10, 100)\<rparr>,
       \<lparr>tok_text = ''500'', tok_confidence = 0.9, tok_bbox = [], tok_center = (160, 100)\<rparr>],
      [\<lparr>tok_text = ''Total'', tok_confidence = 0.9, tok_bbox = [], tok_center = (10, 130)\<rparr>,
       \<lparr>tok_text = ''900'', tok_confidence = 0.9, tok_bbox = [], tok_center = (160, 130)\<rparr>],
      [\<lparr>tok_text = ''Tax'', tok_confidence = 0.9, tok_bbox = [], tok_center = (10, 160)\<rparr>,
       \<lparr>tok_text = ''90'', tok_confidence = 0.9, tok_bbox = [], tok_center = (160, 160)\<rparr>]]
   = [\<lparr>item_name = Some ''Fee'', item_quantity = Some (Fin 1), item_rate = Some (Fin 500),
         item_amount = Some (Fin 500), confidence = 1 / 2, row_idx = 0\<rparr>,
      \<lparr>item_name = Some ''Tax'', item_quantity = Some (Fin 1), item_rate = Some (Fin 90),
         item_amount = Some (Fin 90), confidence = 1 / 2, row_idx = 2\<rparr>]"
proof -
  let ?p = "\<lambda>row i. if i = (1::nat) then Inl ValueError else Inr (parse_row row i)"
  let ?a = "[\<lparr>tok_text = ''Fee'', tok_confidence = 0.9, tok_bbox = [], tok_center = (10, 100)\<rparr>,
            \<lparr>tok_text = ''500'', tok_confidence = 0.9, tok_bbox = [], tok_center = (160, 100)\<rparr>]"
  let ?b = "[\<lparr>tok_text = ''Total'', tok_confidence = 0.9, tok_bbox = [], tok_center = (10, 130)\<rparr>,
            \<lparr>tok_text = ''900'', tok_confidence = 0.9, tok_bbox = [], tok_center = (160, 130)\<rparr>]"
  let ?c = "[\<lparr>tok_text = ''Tax'', tok_confidence = 0.9, tok_bbox = [], tok_center = (10, 160)\<rparr>,
            \<lparr>tok_text = ''90'', tok_confidence = 0.9, tok_bbox = [], tok_center = (160, 160)\<rparr>]"
  have h: "?p ?b (0 + length [?a]) = Inl ValueError" by simp
  have a: "parse_rows_with ?p 0 [?a]
     = [\<lparr>item_name = Some ''Fee'', item_quantity = Some (Fin 1), item_rate = Some (Fin 500),
          item_amount = Some (Fin 500), confidence = 1 / 2, row_idx = 0\<rparr>]"
    by (simp add: parse_defs)
  have c: "parse_rows_with ?p (Suc (0 + length [?a])) [?c]
     = [\<lparr>item_name = Some ''Tax'', item_quantity = Some (Fin 1), item_rate = Some (Fin 90),
          item_amount = Some (Fin 90), confidence = 1 / 2, row_idx = 2\<rparr>]"
    by (simp add: parse_defs)
  from C7_core_returns_for_every_input[where p = ?p and row = ?b and i = 0
      and ?rows1.0 = "[?a]" and ?rows2.0 = "[?c]" and e = ValueError, OF h] a c
  show ?thesis by simp
qed

text \<open>
  C8. On items that have a name, a quantity and a rate (all items that reach the
  filter in \<open>validate_and_clean\<close>), \<open>_filter_subtotals\<close> drops exactly the items whose
  lower-cased name contains one of the six keywords, or whose quantity is 0, or whose
  quantity is 1 and rate is 0, and keeps the others in order. An item named
  \<open>GST 18%\<close> is dropped whatever its quantity, rate and amount are, and an item with
  quantity 1 and rate 0 is dropped whatever its name and amount are.
\<close>

theorem C8_filter_subtotals_drops_exactly:
  assumes "list_all has_fields items"
  shows "filter_subtotals items =
           Inr (filter (\<lambda>it. \<not> (list_ex (\<lambda>k. sublist k (lower (the (item_name it))))
                                     [''subtotal'', ''sub-total'', ''total'', ''tax'', ''gst'', ''discount'']
                                  \<or> feq (the (item_quantity it)) (Fin 0)
                                  \<or> (feq (the (item_quantity it)) (Fin 1)
                                      \<and> feq (the (item_rate it)) (Fin 0)))) items)
         \<and> (\<forall>q r a c i. filter_subtotals
               [\<lparr>item_name = Some ''GST 18%'', item_quantity = Some q, item_rate = Some r,
                 item_amount = a, confidence = c, row_idx = i\<rparr>] = Inr [])
         \<and> (\<forall>n a c i. filter_subtotals
               [\<lparr>item_name = Some n, item_quantity = Some (Fin 1), item_rate = Some (Fin 0),
                 item_amount = a, confidence = c, row_idx = i\<rparr>] = Inr [])"
proof -
  have p: "subtotal_item it \<longleftrightarrow>
        (list_ex (\<lambda>k. sublist k (lower (the (item_name it))))
                                     [''subtotal'', ''sub-total'', ''total'', ''tax'', ''gst'', ''discount'']
                                  \<or> feq (the (item_quantity it)) (Fin 0)
                                  \<or> (feq (the (item_quantity it)) (Fin 1)
                                      \<and> feq (the (item_rate it)) (Fin 0)))" for it
    by (simp add: subtotal_item_def is_subtotal_def subtotal_keywords_def Let_def)
  have a: "filter_subtotals items = Inr (filter (\<lambda>it. \<not> subtotal_item it) items)"
    using filter_loop_eq[OF assms, of "[]"] by (simp add: filter_subtotals_def)
  have b: "filter_subtotals
               [\<lparr>item_name = Some ''GST 18%'', item_quantity = Some q, item_rate = Some r,
                 item_amount = a, confidence = c, row_idx = i\<rparr>] = Inr []" for q r a c i
    by (simp add: filter_subtotals_def is_subtotal_def subtotal_keywords_def lower_def
        sublist_code)
  have c: "filter_subtotals
               [\<lparr>item_name = Some n, item_quantity = Some (Fin 1), item_rate = Some (Fin 0),
                 item_amount = a, confidence = c, row_idx = i\<rparr>] = Inr []" for n a c i
    by (simp add: filter_subtotals_def is_subtotal_def feq_def)
  show ?thesis using a b c unfolding p by blast
qed

theorem C8_three_items_witness:
  "filter_subtotals
     [\<lparr>item_name = Some ''Paracetamol'', item_quantity = Some (Fin 10), item_rate = Some (Fin 5),
         item_amount = Some (Fin 50), confidence = 0.9, row_idx = 0\<rparr>,
      \<lparr>item_name = Some ''GST 18%'', item_quantity = Some (Fin 1), item_rate = Some (Fin 90),
         item_amount = Some (Fin 90), confidence = 1 / 2, row_idx = 1\<rparr>,
      \<lparr>item_name = Some ''Bandage'', item_quantity = Some (Fin 0), item_rate = Some (Fin 20),
         item_amount = Some (Fin 40), confidence = 0.9, row_idx = 2\<rparr>]
   = Inr [\<lparr>item_name = Some ''Paracetamol'', item_quantity = Some (Fin 10), item_rate = Some (Fin 5),
            item_amount = Some (Fin 50), confidence = 0.9, row_idx = 0\<rparr>]"
proof -
  let ?items = "[\<lparr>item_name = Some ''Paracetamol'', item_quantity = Some (Fin 10), item_rate = Some (Fin 5),
                   item_amount = Some (Fin 50), confidence = 0.9, row_idx = 0\<rparr>,
      \<lparr>item_name = Some ''GST 18%'', item_quantity = Some (Fin 1), item_rate = Some (Fin 90),
         item_amount = Some (Fin 90), confidence = 1 / 2, row_idx = 1\<rparr>,
      \<lparr>item_name = Some ''Bandage'', item_quantity = Some (Fin 0), item_rate = Some (Fin 20),
         item_amount = Some (Fin 40), confidence = 0.9, row_idx = 2\<rparr>]"
  have h: "list_all has_fields ?items" by (simp add: has_fields_def)
  from C8_filter_subtotals_drops_exactly[OF h] show ?thesis
    by (simp add: lower_def sublist_code feq_def)
qed

text \<open>
  C9. \<open>validate_and_clean\<close> always returns, and the item list it returns is a
  subsequence of its input: the same items, unchanged, in their input order.
\<close>

theorem C9_output_is_subsequence: "\<exists>out msgs. validate_and_clean md5 fstr items = Inr (out, msgs) \<and> subseq out items"
proof -
  from validate_and_clean_props[of md5 fstr items]
  obtain kept msgs where k:
    "validate_and_clean md5 fstr items = Inr (filter (\<lambda>it. \<not> subtotal_item it) kept, msgs)"
    "subseq kept (filter (\<lambda>it. fst (validate_item it)) items)" by blast
  have "subseq (filter (\<lambda>it. \<not> subtotal_item it) kept) kept" by simp
  also note k(2)
  also have "subseq (filter (\<lambda>it. fst (validate_item it)) items) items" by simp
  finally show ?thesis using k(1) by blast
qed

text \<open>
  C10. The claim: when quantity and rate are positive the denominator
  \<open>max(amount, quantity * rate)\<close> is positive, so the relative error never divides by
  zero. The code: the product of two positive floats can underflow to 0.0. For quantity
  and rate \<open>2^-540\<close> and amount 0.0 the guard \<open>qty > 0 and rate > 0\<close> holds, the
  product is 0.0, the denominator is 0.0, the division raises \<open>ZeroDivisionError\<close>, and
  \<open>_validate_item\<close> rejects the item with "Validation error".
\<close>

theorem C10_underflow_divides_by_zero:
  "fgt (Fin (1 / 2 ^ 540)) (Fin 0)
   \<and> fmul (Fin (1 / 2 ^ 540)) (Fin (1 / 2 ^ 540)) = Fin 0
   \<and> pymax (Fin 0) (fmul (Fin (1 / 2 ^ 540)) (Fin (1 / 2 ^ 540))) = Fin 0
   \<and> relative_error (Fin 0) (fmul (Fin (1 / 2 ^ 540)) (Fin (1 / 2 ^ 540)))
       = Inl ZeroDivisionError
   \<and> validate_item
        \<lparr>item_name = Some ''x'', item_quantity = Some (Fin (1 / 2 ^ 540)),
          item_rate = Some (Fin (1 / 2 ^ 540)), item_amount = Some (Fin 0),
          confidence = 1, row_idx = 0\<rparr>
       = (False, ValidationError ZeroDivisionError)"
  by (simp add: validate_item_def float_defs round_defs)

end
